theory Spec2Isabelle
  imports Complex_Main "HOL-Library.Log_Nat"
begin

section \<open>The image selector of vuepik (src/components/ImageSelector.vue)\<close>

text \<open>
  The component keeps a small reactive state (the selected file, a touch flag and an error
  message), validates every candidate file with a yup schema of two tests (format, size)
  followed by \<open>required\<close>, and reports to its host through the events \<open>select\<close>,
  \<open>reset\<close> and \<open>error\<close>.

  Conventions of the embedding:
  \<^item> a JavaScript string is a \<open>string\<close> whose characters are the code units below 256;
  \<^item> \<open>File.size\<close> is a natural number and \<open>maxSize\<close> an integer, both of a size
    that a JavaScript number holds exactly (below \<open>2^53\<close>); quotients by 1024 are exact
    on such numbers, so they are computed in the rationals;
  \<^item> an optional prop or a nullable value is an \<open>option\<close>;
  \<^item> \<open>await\<close> does not suspend on anything: the schema's tests are synchronous, so
    \<open>select\<close> is a function from the state before to the state after and the events emitted.
\<close>

subsection \<open>JavaScript strings and numbers\<close>

text \<open>\<open>String.prototype.toLowerCase\<close> on the code units below 256: A..Z and the Latin-1
  capitals (U+00C0..U+00DE without the multiplication sign U+00D7) move up by 32.\<close>

definition toLowerCase_char :: "char \<Rightarrow> char" where
  "toLowerCase_char c =
     (let n = (of_char c :: nat)
      in if (65 \<le> n \<and> n \<le> 90) \<or> (192 \<le> n \<and> n \<le> 222 \<and> n \<noteq> 215)
         then char_of (n + 32) else c)"

definition toLowerCase :: "string \<Rightarrow> string" where
  "toLowerCase s = map toLowerCase_char s"

text \<open>\<open>s.split(d)\<close> for a one-character separator: the pieces between the separators, one
  piece (the whole string, possibly empty) when there is none.\<close>

fun split :: "char \<Rightarrow> string \<Rightarrow> string list" where
  "split d [] = [[]]"
| "split d (c # cs) =
     (if c = d then [] # split d cs
      else (case split d cs of [] \<Rightarrow> [[c]] | w # ws \<Rightarrow> (c # w) # ws))"

text \<open>\<open>Array.prototype.pop\<close>, read for its result: the last element, \<open>undefined\<close> on an
  empty array.\<close>

definition pop :: "'a list \<Rightarrow> 'a option" where
  "pop xs = (if xs = [] then None else Some (last xs))"

text \<open>\<open>Array.prototype.join\<close> on strings.\<close>

fun join :: "string \<Rightarrow> string list \<Rightarrow> string" where
  "join sep [] = []"
| "join sep [x] = x"
| "join sep (x # y # ys) = x @ sep @ join sep (y # ys)"

text \<open>Decimal digits of a natural number.\<close>

definition digit :: "nat \<Rightarrow> char" where
  "digit d = ''0123456789'' ! d"

fun decimal :: "nat \<Rightarrow> string" where
  "decimal n = (if n < 10 then [digit n] else decimal (n div 10) @ [digit (n mod 10)])"

declare decimal.simps [simp del]

text \<open>A JavaScript number is a double; the finite ones are rationals. For a positive
  double \<open>x\<close>, \<open>binary_exponent x\<close> is the \<open>e\<close> with \<open>2^e \<le> x < 2^(e+1)\<close> and
  \<open>decimal_exponent x\<close> the \<open>n\<close> with \<open>10^(n-1) \<le> x < 10^n\<close>; \<open>floorlog b m\<close> is the
  number of digits of \<open>m\<close> in base \<open>b\<close>.\<close>

definition binary_exponent :: "rat \<Rightarrow> int" where
  "binary_exponent x =
     (if 1 \<le> x then int (floorlog 2 (nat \<lfloor>x\<rfloor>)) - 1
      else - int (floorlog 2 (nat (\<lceil>1 / x\<rceil> - 1))))"

definition decimal_exponent :: "rat \<Rightarrow> int" where
  "decimal_exponent x =
     (if 1 \<le> x then int (floorlog 10 (nat \<lfloor>x\<rfloor>))
      else 1 - int (floorlog 10 (nat (\<lceil>1 / x\<rceil> - 1))))"

text \<open>The distance from a positive double to the next larger one: 52 fraction bits, and
  the fixed spacing of the subnormal numbers below \<open>2^-1022\<close>.\<close>

definition ulp :: "rat \<Rightarrow> rat" where
  "ulp x = 2 powi (max (binary_exponent x) (- 1022) - 52)"

text \<open>\<open>rounds_to x v\<close>: the real number \<open>v\<close>, read as a double (round to nearest, ties
  to the even significand), is the positive double \<open>x\<close>. The next smaller double is half
  as far away when \<open>x\<close> is a power of two.\<close>

definition rounds_to :: "rat \<Rightarrow> rat \<Rightarrow> bool" where
  "rounds_to x v =
     (let u = ulp x;
          e = binary_exponent x;
          below = (if x = 2 powi e \<and> - 1022 < e then u / 2 else u);
          lo = x - below / 2;
          hi = x + u / 2
      in (lo < v \<and> v < hi) \<or> ((v = lo \<or> v = hi) \<and> even \<lfloor>x / u\<rfloor>))"

text \<open>\<open>Number::toString\<close> of ECMAScript picks integers \<open>n\<close>, \<open>k\<close>, \<open>s\<close> with \<open>k\<close> digits in
  \<open>s\<close>, such that \<open>s * 10^(n-k)\<close> reads back as \<open>x\<close> and \<open>k\<close> is as small as possible;
  among several \<open>s\<close> the one closest to \<open>x\<close>, the even one on a tie. With \<open>k\<close> digits
  only the two neighbours of \<open>x\<close> can qualify.\<close>

definition candidates :: "rat \<Rightarrow> nat \<Rightarrow> int list" where
  "candidates x k =
     (let u = 10 powi (decimal_exponent x - int k);
          f = \<lfloor>x / u\<rfloor>
      in filter (\<lambda>s. rounds_to x (of_int s * u)) [f, f + 1])"

fun closest :: "rat \<Rightarrow> rat \<Rightarrow> int list \<Rightarrow> int option" where
  "closest x u [] = None"
| "closest x u [s] = Some s"
| "closest x u (s # t # ts) =
     Some (if x - of_int s * u < of_int t * u - x then s
           else if of_int t * u - x < x - of_int s * u then t
           else if even s then s else t)"

fun search :: "rat \<Rightarrow> nat list \<Rightarrow> (int \<times> nat) option" where
  "search x [] = None"
| "search x (k # ks) =
     (case closest x (10 powi (decimal_exponent x - int k)) (candidates x k) of
        Some s \<Rightarrow> Some (s, k)
      | None \<Rightarrow> search x ks)"

text \<open>The digits \<open>(s, k, n)\<close> of a positive double. Seventeen digits identify every
  double, so the search ends by then and the last case does not arise (see
  \<open>shortest_digits_rounds_to\<close> below). A candidate \<open>10^k\<close> is the one digit 1 with the
  next exponent.\<close>

definition shortest_digits :: "rat \<Rightarrow> int \<times> nat \<times> int" where
  "shortest_digits x =
     (let n = decimal_exponent x
      in case search x [1..<18] of
           Some (s, k) \<Rightarrow> if s = 10 ^ k then (1, 1, n + 1) else (s, k, n)
         | None \<Rightarrow> (\<lfloor>x / 10 powi (n - 17)\<rfloor>, 17, n))"

text \<open>The layout of the digits: plain digits with zeros up to \<open>10^21\<close>, a decimal point
  inside the digits, leading zeros down to \<open>10^-6\<close>, and exponent notation beyond.\<close>

definition positive_toString :: "rat \<Rightarrow> string" where
  "positive_toString x =
     (case shortest_digits x of
        (s, k, n) \<Rightarrow>
          let ds = decimal (nat s)
          in if int k \<le> n \<and> n \<le> 21 then ds @ replicate (nat (n - int k)) CHR ''0''
             else if 0 < n \<and> n \<le> 21 then take (nat n) ds @ ''.'' @ drop (nat n) ds
             else if - 6 < n \<and> n \<le> 0 then ''0.'' @ replicate (nat (- n)) CHR ''0'' @ ds
             else (if k = 1 then ds else take 1 ds @ ''.'' @ drop 1 ds) @ ''e'' @
                  (if n - 1 < 0 then ''-'' else ''+'') @ decimal (nat \<bar>n - 1\<bar>))"

text \<open>The conversion of a number to a string, as in a template literal.\<close>

definition number_toString :: "rat \<Rightarrow> string" where
  "number_toString x =
     (if x = 0 then ''0''
      else if x < 0 then ''-'' @ positive_toString (- x)
      else positive_toString x)"

text \<open>\<open>reads_back x\<close>: the digits that \<open>toString\<close> prints for \<open>x\<close>, sign apart, denote a
  number that, read as a double, is \<open>x\<close> again.\<close>

definition reads_back :: "rat \<Rightarrow> bool" where
  "reads_back x =
     (x = 0 \<or>
      (case shortest_digits \<bar>x\<bar> of
         (s, k, n) \<Rightarrow> rounds_to \<bar>x\<bar> (of_int s * 10 powi (n - int k))))"

text \<open>\<open>Number.prototype.toFixed(2)\<close>: the integer \<open>n\<close> with \<open>n / 100\<close> nearest to \<open>x\<close>,
  the larger one on a tie, printed with two decimals; from \<open>10^21\<close> on, the number as
  \<open>toString\<close> prints it.\<close>

definition toFixed2 :: "rat \<Rightarrow> string" where
  "toFixed2 x =
     (let a = \<bar>x\<bar>;
          n = nat \<lfloor>a * 100 + 1 / 2\<rfloor>
      in (if x < 0 then ''-'' else '''') @
         (if 10 ^ 21 \<le> a then number_toString a
          else decimal (n div 100) @ ''.'' @ [digit (n mod 100 div 10), digit (n mod 10)]))"

subsection \<open>Files, props and the validation schema\<close>

record File =
  name :: string
  fsize :: nat

record props =
  src :: "string option"
  supportedFormats :: "string list option"
  maxSize :: "int option"
  annotations :: "bool option"

definition validImageFormats :: "string list" where
  "validImageFormats = [''jpg'', ''jpeg'', ''png'', ''webp'', ''gif'']"

text \<open>The local constants of the test \<open>fileFormat\<close>, in the order of the source.
  \<open>props.supportedFormats || validImageFormats\<close>: an array is truthy, also the empty one.\<close>

definition allowedFormats :: "props \<Rightarrow> string list" where
  "allowedFormats p = (case supportedFormats p of Some l \<Rightarrow> l | None \<Rightarrow> validImageFormats)"

definition fileExtension :: "File \<Rightarrow> string option" where
  "fileExtension v = map_option toLowerCase (pop (split CHR ''.'' (name v)))"

definition isImageFormat :: "File \<Rightarrow> bool" where
  "isImageFormat v =
     (case fileExtension v of None \<Rightarrow> False | Some e \<Rightarrow> e \<in> set validImageFormats)"

text \<open>\<open>fileExtension ? allowedFormats.includes(fileExtension) : true\<close>: \<open>undefined\<close> and
  the empty string are falsy.\<close>

definition isAllowedFormat :: "props \<Rightarrow> File \<Rightarrow> bool" where
  "isAllowedFormat p v =
     (case fileExtension v of
        None \<Rightarrow> True
      | Some e \<Rightarrow> if e \<noteq> [] then e \<in> set (allowedFormats p) else True)"

text \<open>\<open>${fileExtension}\<close> in the messages.\<close>

definition show_ext :: "string option \<Rightarrow> string" where
  "show_ext e = (case e of None \<Rightarrow> ''undefined'' | Some s \<Rightarrow> s)"

text \<open>A yup test returns \<open>true\<close> (here \<open>None\<close>) or a \<open>ValidationError\<close> with its message.\<close>

definition fileFormat :: "props \<Rightarrow> File option \<Rightarrow> string option" where
  "fileFormat p value =
     (case value of
        None \<Rightarrow> None
      | Some v \<Rightarrow>
          if \<not> isImageFormat v then
            Some (''Unsupported file format: .'' @ show_ext (fileExtension v) @
                  ''. Supported formats are: '' @ join '', '' validImageFormats @ ''.'')
          else if \<not> isAllowedFormat p v then
            Some (''Unsupported file format: .'' @ show_ext (fileExtension v) @
                  ''. Allowed formats are: '' @ join '', '' (allowedFormats p) @ ''.'')
          else None)"

text \<open>\<open>props.maxSize || 5 * 1024 * 1024\<close>: \<open>undefined\<close> and 0 are falsy.\<close>

definition maxFileSize :: "props \<Rightarrow> int" where
  "maxFileSize p =
     (case maxSize p of
        None \<Rightarrow> 5 * 1024 * 1024
      | Some m \<Rightarrow> if m \<noteq> 0 then m else 5 * 1024 * 1024)"

definition fileSizeMB :: "File \<Rightarrow> string" where
  "fileSizeMB v = toFixed2 (of_nat (fsize v) / 1024 / 1024)"

definition maxFileSizeMB :: "props \<Rightarrow> rat" where
  "maxFileSizeMB p = of_int (maxFileSize p) / 1024 / 1024"

definition fileSize :: "props \<Rightarrow> File option \<Rightarrow> string option" where
  "fileSize p value =
     (case value of
        None \<Rightarrow> None
      | Some v \<Rightarrow>
          if int (fsize v) > maxFileSize p then
            Some (''File size is too large: '' @ fileSizeMB v @
                  ''MB. Maximum allowed size is '' @
                  number_toString (maxFileSizeMB p) @ ''MB.'')
          else None)"

definition required :: "File option \<Rightarrow> string option" where
  "required value =
     (case value of None \<Rightarrow> Some ''Please select an image file'' | Some v \<Rightarrow> None)"

text \<open>yup's \<open>validate\<close> with its default \<open>abortEarly\<close>: the tests run in the order of the
  schema and the first failure is thrown, a \<open>ValidationError\<close> whose \<open>errors\<close> holds that
  one message.\<close>

datatype ValidationError = ValidationError (message: string)

definition errors :: "ValidationError \<Rightarrow> string list" where
  "errors e = [message e]"

fun runTests :: "('v \<Rightarrow> string option) list \<Rightarrow> 'v \<Rightarrow> ValidationError + unit" where
  "runTests [] v = Inr ()"
| "runTests (t # ts) v =
     (case t v of Some m \<Rightarrow> Inl (ValidationError m) | None \<Rightarrow> runTests ts v)"

definition validate :: "props \<Rightarrow> File option \<Rightarrow> ValidationError + unit" where
  "validate p value = runTests [fileFormat p, fileSize p, required] value"

subsection \<open>The browser's object URLs\<close>

text \<open>\<open>URL.createObjectURL\<close> registers the file under a URL that was never handed out
  before and returns it; \<open>URL.revokeObjectURL\<close> removes that one registration (and does
  nothing for any other string). \<open>Blob k\<close> stands for the \<open>k\<close>-th \<open>blob:\<close> URL, \<open>Url s\<close>
  for an ordinary string.\<close>

datatype url = Blob nat | Url string

record url_store =
  blobs :: "nat \<rightharpoonup> File"
  fresh :: nat

definition createObjectURL :: "File \<Rightarrow> url_store \<Rightarrow> url \<times> url_store" where
  "createObjectURL f u =
     (Blob (fresh u), u\<lparr>blobs := (blobs u)(fresh u \<mapsto> f), fresh := Suc (fresh u)\<rparr>)"

definition revokeObjectURL :: "url \<Rightarrow> url_store \<Rightarrow> url_store" where
  "revokeObjectURL x u =
     (case x of Blob k \<Rightarrow> u\<lparr>blobs := (blobs u)(k := None)\<rparr> | Url s \<Rightarrow> u)"

subsection \<open>The component: state, events and handlers\<close>

record state =
  image_st :: "File option"
  touched :: bool
  error :: "string option"

record component =
  state :: state
  isDragging :: bool
  urls :: url_store

text \<open>What \<open>emit\<close> was called with.\<close>

datatype emit = EmitSelect File | EmitReset | EmitError string

text \<open>The state of \<open>reactive({image: null, touched: false, error: null})\<close> and of
  \<open>ref(false)\<close>, in a browser whose URL store is \<open>u\<close>.\<close>

definition mount :: "url_store \<Rightarrow> component" where
  "mount u =
     \<lparr>state = \<lparr>image_st = None, touched = False, error = None\<rparr>,
      isDragging = False, urls = u\<rparr>"

text \<open>\<open>previewUrl\<close> is called by the template each time the image is rendered.\<close>

definition previewUrl :: "props \<Rightarrow> component \<Rightarrow> url \<times> component" where
  "previewUrl p c =
     (case image_st (state c) of
        Some f \<Rightarrow> (let (x, u) = createObjectURL f (urls c) in (x, c\<lparr>urls := u\<rparr>))
      | None \<Rightarrow> (Url (case src p of Some s \<Rightarrow> s | None \<Rightarrow> []), c))"

text \<open>What \<open>select\<close> reads of its event: \<open>target_files\<close> is \<open>event.target.files\<close>
  (\<open>None\<close> when the target is null or has no file list), \<open>dataTransfer\<close> is \<open>None\<close>
  when the event has no such property, \<open>Some None\<close> when the property is null and
  otherwise holds \<open>event.dataTransfer.files\<close>.\<close>

datatype event =
  Event (target_files: "File list option") (dataTransfer: "File list option option")

definition select :: "props \<Rightarrow> event \<Rightarrow> component \<Rightarrow> component \<times> emit list" where
  "select p ev c =
     (let file =
        (case target_files ev of
           Some files \<Rightarrow> (if length files > 0 then Some (files ! 0) else None)
         | None \<Rightarrow>
             (case dataTransfer ev of
                None \<Rightarrow> None
              | Some dt \<Rightarrow>
                  (case dt of
                     None \<Rightarrow> None
                   | Some files \<Rightarrow> (case files of [] \<Rightarrow> None | f # fs \<Rightarrow> Some f))))
      in case file of
           None \<Rightarrow> (c, [])
         | Some f \<Rightarrow>
             (case validate p (Some f) of
                Inr ok \<Rightarrow>
                  (c\<lparr>state := \<lparr>image_st = Some f, touched = True, error = None\<rparr>\<rparr>,
                   [EmitSelect f])
              | Inl e \<Rightarrow>
                  (c\<lparr>state := (state c)\<lparr>error := Some (errors e ! 0)\<rparr>\<rparr>,
                   [EmitError (errors e ! 0)])))"

definition reset :: "component \<Rightarrow> component \<times> emit list" where
  "reset c =
     (let c1 =
        (case image_st (state c) of
           Some f \<Rightarrow>
             (let (x, u) = createObjectURL f (urls c) in c\<lparr>urls := revokeObjectURL x u\<rparr>)
         | None \<Rightarrow> c)
      in (c1\<lparr>state := \<lparr>image_st = None, touched = False, error = None\<rparr>\<rparr>, [EmitReset]))"

text \<open>\<open>handleDrag(isOver = false)\<close>: the argument may be left out.\<close>

definition handleDrag :: "bool option \<Rightarrow> component \<Rightarrow> component \<times> emit list" where
  "handleDrag isOver c =
     (c\<lparr>isDragging := (case isOver of None \<Rightarrow> False | Some b \<Rightarrow> b)\<rparr>, [])"

definition handleDrop :: "props \<Rightarrow> event \<Rightarrow> component \<Rightarrow> component \<times> emit list" where
  "handleDrop p ev c = select p ev (c\<lparr>isDragging := False\<rparr>)"

definition handleChange :: "props \<Rightarrow> event \<Rightarrow> component \<Rightarrow> component \<times> emit list" where
  "handleChange p ev c = select p ev c"

definition handleReset :: "component \<Rightarrow> component \<times> emit list" where
  "handleReset c = reset (c\<lparr>isDragging := False\<rparr>)"

subsection \<open>Runs of the component\<close>

text \<open>The user's actions on the template: a change of the file input, a drop, a click on
  the reset button, and a drag entering, moving over or leaving the component.\<close>

datatype action = Change event | Drop event | ResetClick | Drag "bool option"

fun handle :: "props \<Rightarrow> action \<Rightarrow> component \<Rightarrow> component \<times> emit list" where
  "handle p (Change ev) c = handleChange p ev c"
| "handle p (Drop ev) c = handleDrop p ev c"
| "handle p ResetClick c = handleReset c"
| "handle p (Drag isOver) c = handleDrag isOver c"

fun run :: "props \<Rightarrow> action list \<Rightarrow> component \<Rightarrow> component" where
  "run p [] c = c"
| "run p (a # as) c = run p as (fst (handle p a c))"

subsection \<open>Notions of the specification\<close>

text \<open>The component as mounted without any prop, a browser that has handed out no object
  URL yet, and the empty Selection State.\<close>

definition defaults :: props where
  "defaults = \<lparr>src = None, supportedFormats = None, maxSize = None, annotations = None\<rparr>"

definition empty_store :: url_store where
  "empty_store = \<lparr>blobs = Map.empty, fresh = 0\<rparr>"

definition empty_state :: state where
  "empty_state = \<lparr>image_st = None, touched = False, error = None\<rparr>"

text \<open>The candidate file of an input event: the first file of the picker's list when the
  target has one, of the dropped list otherwise; none when that list is empty or missing.\<close>

definition candidate :: "event \<Rightarrow> File option" where
  "candidate ev =
     (case ev of
        Event (Some files) dt \<Rightarrow> (case files of [] \<Rightarrow> None | f # fs \<Rightarrow> Some f)
      | Event None (Some (Some files)) \<Rightarrow> (case files of [] \<Rightarrow> None | f # fs \<Rightarrow> Some f)
      | Event None dt \<Rightarrow> None)"

text \<open>The candidate file an action brings, if any.\<close>

definition attempt_of :: "action \<Rightarrow> File option" where
  "attempt_of a =
     (case a of
        Change ev \<Rightarrow> candidate ev
      | Drop ev \<Rightarrow> candidate ev
      | ResetClick \<Rightarrow> None
      | Drag b \<Rightarrow> None)"

text \<open>The selection attempts of a run, oldest first: the candidates of its input events.\<close>

fun attempts :: "action list \<Rightarrow> File list" where
  "attempts [] = []"
| "attempts (Change ev # as) =
     (case candidate ev of None \<Rightarrow> attempts as | Some f \<Rightarrow> f # attempts as)"
| "attempts (Drop ev # as) =
     (case candidate ev of None \<Rightarrow> attempts as | Some f \<Rightarrow> f # attempts as)"
| "attempts (a # as) = attempts as"

definition rejected :: "props \<Rightarrow> File \<Rightarrow> bool" where
  "rejected p f = isl (validate p (Some f))"

definition last_attempt_failed :: "props \<Rightarrow> action list \<Rightarrow> bool" where
  "last_attempt_failed p as =
     (case rev (attempts as) of [] \<Rightarrow> False | f # fs \<Rightarrow> rejected p f)"

definition some_attempt_succeeded :: "props \<Rightarrow> action list \<Rightarrow> bool" where
  "some_attempt_succeeded p as =
     list_ex (\<lambda>f. \<not> rejected p f) (attempts as)"

text \<open>The files of the specification's scenarios.\<close>

definition photo_png :: File where
  "photo_png = \<lparr>name = ''photo.png'', fsize = 2 * 1024 * 1024\<rparr>"

definition a_jpg :: File where
  "a_jpg = \<lparr>name = ''a.jpg'', fsize = 1024\<rparr>"

definition b_gif :: File where
  "b_gif = \<lparr>name = ''b.gif'', fsize = 6 * 1024 * 1024\<rparr>"

definition c_exe :: File where
  "c_exe = \<lparr>name = ''c.exe'', fsize = 10 * 1024\<rparr>"

section \<open>Properties\<close>

subsection \<open>Splitting a name at its dots\<close>

lemma split_not_Nil: "split d s \<noteq> []"
  by (induction s) (auto split: list.splits)

lemma split_no_separator: "d \<notin> set s \<Longrightarrow> split d s = [s]"
  by (induction s) auto

lemma split_append: "split d (a @ d # b) = split d a @ split d b"
proof (induction a)
  case Nil
  show ?case by simp
next
  case (Cons c a)
  obtain w ws where "split d a = w # ws"
    using split_not_Nil [of d a] by (cases "split d a") auto
  with Cons show ?case by simp
qed

lemma pop_split_after_last:
  assumes "d \<notin> set b"
  shows "pop (split d (a @ d # b)) = Some b"
  using assms by (simp add: pop_def split_append split_not_Nil split_no_separator)

lemma pop_split_whole:
  assumes "d \<notin> set b"
  shows "pop (split d b) = Some b"
  using assms by (simp add: pop_def split_no_separator)

text \<open>The extension the validator derives is the lower-cased text after the last dot of
  the name, and the whole lower-cased name when it has no dot.\<close>

lemma fileExtension_eq:
  assumes "name v = a @ ''.'' @ b \<or> name v = b" and "CHR ''.'' \<notin> set b"
  shows "fileExtension v = Some (toLowerCase b)"
  using assms by (auto simp: fileExtension_def pop_split_after_last pop_split_whole)

lemma toLowerCase_Nil_iff: "toLowerCase b = [] \<longleftrightarrow> b = []"
  by (simp add: toLowerCase_def)

subsection \<open>The schema on a file\<close>

lemma join_validImageFormats: "join '', '' validImageFormats = ''jpg, jpeg, png, webp, gif''"
  by (simp add: validImageFormats_def)

text \<open>On a file \<open>required\<close> passes, so the outcome is that of the first failing test.\<close>

lemma validate_Some:
  "validate p (Some v) =
     (case fileFormat p (Some v) of
        Some m \<Rightarrow> Inl (ValidationError m)
      | None \<Rightarrow> (case fileSize p (Some v) of
                   Some m \<Rightarrow> Inl (ValidationError m)
                 | None \<Rightarrow> Inr ()))"
  by (simp add: validate_def required_def split: option.splits)

lemma validate_not_image:
  assumes "fileExtension v = Some e" and "e \<notin> set validImageFormats"
  shows "validate p (Some v) =
           Inl (ValidationError (''Unsupported file format: .'' @ e @
                ''. Supported formats are: jpg, jpeg, png, webp, gif.''))"
proof -
  have "\<not> isImageFormat v"
    using assms by (simp add: isImageFormat_def)
  then have "fileFormat p (Some v) =
      Some (''Unsupported file format: .'' @ e @
            ''. Supported formats are: jpg, jpeg, png, webp, gif.'')"
    using assms(1) by (simp add: fileFormat_def show_ext_def join_validImageFormats)
  then show ?thesis
    by (simp add: validate_Some)
qed

text \<open>The size that \<open>toFixed(2)\<close> prints, in whole hundredths of a MiB: the byte count
  times 100 / 2^20, rounded to the nearest integer, halves upwards.\<close>

lemma round_MB:
  "nat \<lfloor>\<bar>of_nat s / 1024 / 1024 :: rat\<bar> * 100 + 1 / 2\<rfloor> = (200 * s + 1048576) div 2097152"
proof -
  have "\<bar>of_nat s / 1024 / 1024 :: rat\<bar> * 100 + 1 / 2 =
      of_nat (200 * s + 1048576) / of_nat 2097152"
    by (simp add: field_simps)
  then show ?thesis
    by (simp only: floor_divide_of_nat_eq nat_int)
qed

lemma fileSizeMB_eq:
  assumes "fsize v < 2 ^ 53"
  shows "fileSizeMB v =
     (let n = (200 * fsize v + 1048576) div 2097152
      in decimal (n div 100) @ ''.'' @ [digit (n mod 100 div 10), digit (n mod 10)])"
proof -
  have "(of_nat (fsize v) :: rat) < 2 ^ 53"
    using assms by (metis of_nat_less_iff of_nat_numeral of_nat_power)
  then have "\<not> 10 ^ 21 \<le> \<bar>of_nat (fsize v) / 1024 / 1024 :: rat\<bar>"
    by simp
  then show ?thesis
    unfolding fileSizeMB_def toFixed2_def Let_def round_MB by simp
qed

subsection \<open>The digits of a number\<close>

lemma exponent_bounds:
  fixes x :: rat
  assumes "0 < x" and "1 < b"
  defines "e \<equiv> (if 1 \<le> x then int (floorlog b (nat \<lfloor>x\<rfloor>)) - 1
                 else - int (floorlog b (nat (\<lceil>1 / x\<rceil> - 1))))"
  shows "of_nat b powi e \<le> x \<and> x < of_nat b powi (e + 1)"
proof (cases "1 \<le> x")
  case True
  define N where "N = nat \<lfloor>x\<rfloor>"
  define fl where "fl = floorlog b N"
  have N: "0 < N" "of_nat N \<le> x" "x < of_nat (N + 1)"
    using True by (simp_all add: N_def le_floor_iff) linarith+
  have fl: "b ^ (fl - 1) \<le> N" "N < b ^ fl"
    using floorlog_bounds [OF N(1) assms(2)] by (simp_all add: fl_def)
  have "floorlog b N \<noteq> 0"
    using N(1) assms(2) by (simp add: floorlog_eq_zero_iff)
  then have pos: "0 < fl"
    by (simp add: fl_def)
  have e: "e = int (fl - 1)" "e + 1 = int fl"
    using True pos by (simp_all add: e_def fl_def N_def)
  have "(of_nat b :: rat) ^ (fl - 1) \<le> of_nat N"
    using fl(1) by (metis of_nat_le_iff of_nat_power)
  moreover have "(of_nat (N + 1) :: rat) \<le> of_nat b ^ fl"
    using fl(2) by (metis Suc_eq_plus1 Suc_leI of_nat_le_iff of_nat_power)
  moreover have "of_nat b powi e = (of_nat b :: rat) ^ (fl - 1)"
    by (simp only: e(1) power_int_of_nat)
  moreover have "of_nat b powi (e + 1) = (of_nat b :: rat) ^ fl"
    by (simp only: e(2) power_int_of_nat)
  ultimately show ?thesis
    using N(2,3) by linarith
next
  case False
  define y where "y = 1 / x"
  define N where "N = nat (\<lceil>y\<rceil> - 1)"
  define fl where "fl = floorlog b N"
  have y: "1 < y" "x = 1 / y" "0 < y"
    using False assms(1) by (simp_all add: y_def)
  have N: "0 < N" "of_nat N < y" "y \<le> of_nat (N + 1)"
  proof -
    have "2 \<le> \<lceil>y\<rceil>" using y(1) by linarith
    then show "0 < N" by (simp add: N_def)
    then have i: "int N = \<lceil>y\<rceil> - 1" by (simp add: N_def)
    have "of_int (\<lceil>y\<rceil> - 1) < y" by linarith
    then show "of_nat N < y" using i by (metis of_int_of_nat_eq)
    have "y \<le> of_int (int (N + 1))" using i by (simp add: le_of_int_ceiling)
    then show "y \<le> of_nat (N + 1)" by (simp only: of_int_of_nat_eq)
  qed
  have fl: "b ^ (fl - 1) \<le> N" "N < b ^ fl"
    using floorlog_bounds [OF N(1) assms(2)] by (simp_all add: fl_def)
  have "floorlog b N \<noteq> 0"
    using N(1) assms(2) by (simp add: floorlog_eq_zero_iff)
  then have pos: "0 < fl"
    by (simp add: fl_def)
  have e: "e = - int fl" "e + 1 = - int (fl - 1)"
    using False pos by (simp_all add: e_def fl_def N_def y_def)
  have bpos: "(0 :: rat) < of_nat b" using assms(2) by simp
  have 1: "(of_nat b :: rat) ^ (fl - 1) < y"
  proof -
    have "(of_nat b :: rat) ^ (fl - 1) \<le> of_nat N"
      using fl(1) by (metis of_nat_le_iff of_nat_power)
    then show ?thesis using N(2) by linarith
  qed
  have 2: "y \<le> (of_nat b :: rat) ^ fl"
  proof -
    have "(of_nat (N + 1) :: rat) \<le> of_nat b ^ fl"
      using fl(2) by (metis Suc_eq_plus1 Suc_leI of_nat_le_iff of_nat_power)
    then show ?thesis using N(3) by linarith
  qed
  have "of_nat b powi e = 1 / (of_nat b :: rat) ^ fl"
    by (simp only: e(1) power_int_minus power_int_of_nat inverse_eq_divide)
  moreover have "of_nat b powi (e + 1) = 1 / (of_nat b :: rat) ^ (fl - 1)"
    by (simp only: e(2) power_int_minus power_int_of_nat inverse_eq_divide)
  moreover have "1 / (of_nat b :: rat) ^ fl \<le> 1 / y"
    using 2 y(3) by (simp add: frac_le)
  moreover have "1 / y < 1 / (of_nat b :: rat) ^ (fl - 1)"
    using 1 bpos by (simp add: frac_less2)
  ultimately show ?thesis
    using y(2) by simp
qed

lemma binary_exponent_bounds:
  assumes "0 < x"
  shows "2 powi binary_exponent x \<le> x" "x < 2 powi (binary_exponent x + 1)"
  using exponent_bounds [OF assms, of 2] by (simp_all add: binary_exponent_def)

lemma decimal_exponent_bounds:
  assumes "0 < x"
  shows "10 powi (decimal_exponent x - 1) \<le> x" "x < 10 powi decimal_exponent x"
proof -
  have "decimal_exponent x =
      (if 1 \<le> x then int (floorlog 10 (nat \<lfloor>x\<rfloor>)) - 1
       else - int (floorlog 10 (nat (\<lceil>1 / x\<rceil> - 1)))) + 1"
    by (simp add: decimal_exponent_def)
  then show "10 powi (decimal_exponent x - 1) \<le> x" "x < 10 powi decimal_exponent x"
    using exponent_bounds [OF assms, of 10] by simp_all
qed


lemma ulp_bounds:
  assumes "0 < x"
  defines "B \<equiv> (if x = 2 powi binary_exponent x \<and> - 1022 < binary_exponent x
                 then ulp x / 2 else ulp x)"
  shows "0 < ulp x" "x / 2 ^ 54 < ulp x / 2" "x / 2 ^ 54 \<le> B / 2"
proof -
  define E where "E = binary_exponent x"
  define P :: rat where "P = 2 powi E"
  have P: "0 < P" "P \<le> x" "x < 2 * P"
    using binary_exponent_bounds [OF assms(1)]
    by (simp_all add: P_def E_def power_int_add)
  have low: "2 powi (E - 52) = P / 2 ^ 52"
    by (simp add: P_def power_int_diff)
  have "2 powi (E - 52) \<le> (2 :: rat) powi (max E (- 1022) - 52)"
    by (rule power_int_increasing) simp_all
  then have U: "P / 2 ^ 52 \<le> ulp x"
    by (simp add: ulp_def E_def [symmetric] low)
  show pos: "0 < ulp x"
    by (simp add: ulp_def)
  show half: "x / 2 ^ 54 < ulp x / 2"
    using P U by (simp add: field_simps)
  show "x / 2 ^ 54 \<le> B / 2"
  proof (cases "x = 2 powi binary_exponent x \<and> - 1022 < binary_exponent x")
    case True
    then have "max E (- 1022) = E"
      by (simp add: E_def)
    then have "ulp x = P / 2 ^ 52"
      by (simp only: ulp_def E_def [symmetric] low)
    moreover have "x = P"
      using True by (simp add: P_def E_def)
    moreover have "B = ulp x / 2"
      unfolding B_def using True by (rule if_P)
    ultimately show ?thesis
      by simp
  next
    case False
    then have "B = ulp x"
      unfolding B_def by (rule if_not_P)
    then show ?thesis
      using half by simp
  qed
qed

lemma candidates_17: 
  assumes "0 < x"
  shows "candidates x 17 \<noteq> []"
proof -
  define n where "n = decimal_exponent x"
  define u :: rat where "u = 10 powi (n - 17)"
  define f where "f = \<lfloor>x / u\<rfloor>"
  define B where "B = (if x = 2 powi binary_exponent x \<and> - 1022 < binary_exponent x
                 then ulp x / 2 else ulp x)"
  note ub = ulp_bounds [OF assms, folded B_def]
  have u: "0 < u"
    by (simp add: u_def)
  have "u = 10 powi (n - 1) / 10 ^ 16"
    using power_int_diff [of "10 :: rat" "n - 1" 16] by (simp add: u_def)
  then have "u \<le> x / 10 ^ 16"
    using decimal_exponent_bounds(1) [OF assms] by (simp add: n_def divide_right_mono)
  then have small: "u / 2 < x / 2 ^ 54"
    using assms by (simp add: field_simps)
  have "of_int f \<le> x / u" "x / u < of_int f + 1"
    unfolding f_def by linarith+
  then have f: "of_int f * u \<le> x" "x < (of_int f + 1) * u"
    using u by (simp_all add: pos_le_divide_eq pos_divide_less_eq)
  have in_range: "rounds_to x v" if "x - B / 2 < v" "v < x + ulp x / 2" for v
    using that by (simp add: rounds_to_def Let_def B_def)
  have next_one: "of_int (f + 1) * u = of_int f * u + u"
    by (simp add: algebra_simps)
  have f': "x < of_int f * u + u"
    using f(2) by (simp add: algebra_simps)
  have "rounds_to x (of_int f * u) \<or> rounds_to x (of_int (f + 1) * u)"
  proof (cases "x - of_int f * u \<le> u / 2")
    case True
    have "rounds_to x (of_int f * u)"
      using True small ub f(1) assms by (intro in_range) linarith+
    then show ?thesis ..
  next
    case False
    have "rounds_to x (of_int (f + 1) * u)"
      unfolding next_one using False small ub f' assms by (intro in_range) linarith+
    then show ?thesis ..
  qed
  then have "\<exists>s \<in> set [f, f + 1]. rounds_to x (of_int s * u)"
    by auto
  then have "filter (\<lambda>s. rounds_to x (of_int s * u)) [f, f + 1] \<noteq> []"
    unfolding filter_empty_conv by blast
  then show ?thesis
    by (simp add: candidates_def Let_def n_def u_def f_def)
qed

lemma closest_in_set: "closest x u cs = Some s \<Longrightarrow> s \<in> set cs"
  by (induction x u cs rule: closest.induct) (auto split: if_splits)

lemma closest_None_iff: "closest x u cs = None \<longleftrightarrow> cs = []"
  by (induction x u cs rule: closest.induct) auto

lemma candidates_sound:
  "s \<in> set (candidates x k) \<Longrightarrow> rounds_to x (of_int s * 10 powi (decimal_exponent x - int k))"
  unfolding candidates_def Let_def set_filter by blast

lemma search_sound:
  "search x ks = Some (s, k) \<Longrightarrow> rounds_to x (of_int s * 10 powi (decimal_exponent x - int k))"
  by (induction ks) (auto split: option.splits dest: closest_in_set candidates_sound)

lemma search_finds:
  "k \<in> set ks \<Longrightarrow> candidates x k \<noteq> [] \<Longrightarrow> search x ks \<noteq> None"
  by (induction ks) (auto split: option.splits simp: closest_None_iff)

lemma shortest_digits_rounds_to:
  assumes "0 < x"
  shows "case shortest_digits x of (s, k, n) \<Rightarrow> rounds_to x (of_int s * 10 powi (n - int k))"
proof -
  have "search x [1..<18] \<noteq> None"
    using candidates_17 [OF assms] by (intro search_finds [of 17]) simp_all
  then obtain s k where sk: "search x [Suc 0..<18] = Some (s, k)"
    by auto
  note r = search_sound [OF sk]
  show ?thesis
  proof (cases "s = 10 ^ k")
    case True
    have "(10 :: rat) powi decimal_exponent x = 10 ^ k * 10 powi (decimal_exponent x - int k)"
      using power_int_add [of "10 :: rat" "int k" "decimal_exponent x - int k"] by simp
    then have "rounds_to x (10 powi decimal_exponent x)"
      using r True by simp
    then show ?thesis
      using True by (simp add: shortest_digits_def sk Let_def)
  next
    case False
    then show ?thesis
      using r by (simp add: shortest_digits_def sk Let_def)
  qed
qed


text \<open>Whatever \<open>toString\<close> prints reads back as the number printed.\<close>

lemma reads_back_all: "reads_back x"
proof (cases "x = 0")
  case True
  then show ?thesis by (simp add: reads_back_def)
next
  case False
  then have "0 < \<bar>x\<bar>" by simp
  then have "case shortest_digits \<bar>x\<bar> of
      (s, k, n) \<Rightarrow> rounds_to \<bar>x\<bar> (of_int s * 10 powi (n - int k))"
    by (rule shortest_digits_rounds_to)
  then show ?thesis
    unfolding reads_back_def by (rule disjI2)
qed

subsection \<open>Evaluating numbers\<close>

lemma floor_numeral_div_rat:
  "\<lfloor>(numeral m :: rat) / numeral n\<rfloor> = numeral m div numeral n"
  using floor_divide_of_int_eq [of "numeral m" "numeral n", where ?'a = rat] by simp

lemma powi_eval: "x powi n = (if 0 \<le> n then x ^ nat n else 1 / x ^ nat (- n))"
  for x :: rat
  by (simp add: power_int_def power_inverse inverse_eq_divide power_one_over)

lemma digit_counts: "[Suc 0..<18] = [1, 2, 3, 4, 5, 6, 7, 8, 9, 10, 11, 12, 13, 14, 15, 16, 17]"
  by (simp add: upt_rec)

text \<open>5 has the one digit 5.\<close>

lemma number_toString_5: "number_toString 5 = ''5''"
proof -
  have e: "binary_exponent 5 = 2" "decimal_exponent 5 = 1"
    by (simp_all add: binary_exponent_def decimal_exponent_def compute_floorlog)
  have u: "ulp 5 = 1 / 2 ^ 50"
    by (simp add: ulp_def e powi_eval)
  have "candidates 5 1 = [5]"
    by (simp add: candidates_def rounds_to_def e u powi_eval Let_def)
  then have "search 5 [Suc 0..<18] = Some (5, 1)"
    by (simp add: digit_counts e powi_eval)
  then have "shortest_digits 5 = (5, 1, 1)"
    by (simp add: shortest_digits_def e)
  then show ?thesis
    by (simp add: number_toString_def positive_toString_def decimal.simps digit_def)
qed

text \<open>9 / 8 is no double that one, two or three digits read back as; 1125 / 1000 is it.\<close>

lemma number_toString_9_8: "number_toString (9 / 8) = ''1.125''"
proof -
  have e: "binary_exponent (9 / 8) = 0" "decimal_exponent (9 / 8) = 1"
    by (simp_all add: binary_exponent_def decimal_exponent_def compute_floorlog
        floor_numeral_div_rat)
  have u: "ulp (9 / 8) = 1 / 2 ^ 52"
    by (simp add: ulp_def e powi_eval)
  have r: "rounds_to (9 / 8) v \<longleftrightarrow>
      9 / 8 - 1 / 2 ^ 53 < v \<and> v < 9 / 8 + 1 / 2 ^ 53
      \<or> (v = 9 / 8 - 1 / 2 ^ 53 \<or> v = 9 / 8 + 1 / 2 ^ 53)" for v
    by (simp add: rounds_to_def e u powi_eval Let_def floor_numeral_div_rat)
  have c1: "candidates (9 / 8) (Suc 0) = []"
    by (simp add: candidates_def r e powi_eval Let_def floor_numeral_div_rat)
  have c2: "candidates (9 / 8) 2 = []"
    by (simp add: candidates_def r e powi_eval Let_def floor_numeral_div_rat)
  have c3: "candidates (9 / 8) 3 = []"
    by (simp add: candidates_def r e powi_eval Let_def floor_numeral_div_rat)
  have c4: "candidates (9 / 8) 4 = [1125]"
    by (simp add: candidates_def r e powi_eval Let_def floor_numeral_div_rat)
  have "search (9 / 8) [Suc 0..<18] = Some (1125, 4)"
    by (simp add: digit_counts c1 c2 c3 c4 e powi_eval)
  then have "shortest_digits (9 / 8) = (1125, 4, 1)"
    by (simp add: shortest_digits_def e)
  then show ?thesis
    by (simp add: number_toString_def positive_toString_def decimal.simps digit_def)
qed

text \<open>A maximum of 512000 bytes, and \<open>-10^21\<close>.\<close>

lemma ceiling_numeral_div_rat:
  "\<lceil>(numeral m :: rat) / numeral n\<rceil> = - (- numeral m div numeral n)"
  using ceiling_divide_eq_div [of "numeral m" "numeral n", where ?'a = rat] by simp

lemma number_toString_125_256: "number_toString (125 / 256) = ''0.48828125''"
proof -
  have e: "binary_exponent (125 / 256) = - 2" "decimal_exponent (125 / 256) = 0"
    by (simp_all add: binary_exponent_def decimal_exponent_def compute_floorlog
        ceiling_numeral_div_rat)
  have u: "ulp (125 / 256) = 1 / 2 ^ 54"
    by (simp add: ulp_def e powi_eval)
  have r: "rounds_to (125 / 256) v \<longleftrightarrow>
      125 / 256 - 1 / 2 ^ 55 < v \<and> v < 125 / 256 + 1 / 2 ^ 55
      \<or> (v = 125 / 256 - 1 / 2 ^ 55 \<or> v = 125 / 256 + 1 / 2 ^ 55)" for v
    by (simp add: rounds_to_def e u powi_eval Let_def floor_numeral_div_rat)
  have c: "candidates (125 / 256) (Suc 0) = []" "candidates (125 / 256) 2 = []"
    "candidates (125 / 256) 3 = []" "candidates (125 / 256) 4 = []"
    "candidates (125 / 256) 5 = []" "candidates (125 / 256) 6 = []"
    "candidates (125 / 256) 7 = []" "candidates (125 / 256) 8 = [48828125]"
    by (simp_all add: candidates_def r e powi_eval Let_def floor_numeral_div_rat)
  have "search (125 / 256) [Suc 0..<18] = Some (48828125, 8)"
    by (simp add: digit_counts c e powi_eval)
  then have "shortest_digits (125 / 256) = (48828125, 8, 0)"
    by (simp add: shortest_digits_def e)
  then show ?thesis
    by (simp add: number_toString_def positive_toString_def decimal.simps digit_def)
qed

lemma number_toString_minus_1e21: "number_toString (- 1000000000000000000000) = ''-1e+21''"
proof -
  have e: "binary_exponent 1000000000000000000000 = 69" "decimal_exponent 1000000000000000000000 = 22"
    by (simp_all add: binary_exponent_def decimal_exponent_def compute_floorlog)
  have u: "ulp 1000000000000000000000 = 2 ^ 17"
    by (simp add: ulp_def e powi_eval)
  have "candidates 1000000000000000000000 (Suc 0) = [1]"
    by (simp add: candidates_def rounds_to_def e u powi_eval Let_def)
  then have "search 1000000000000000000000 [Suc 0..<18] = Some (1, 1)"
    by (simp add: digit_counts e powi_eval)
  then have "shortest_digits 1000000000000000000000 = (1, 1, 22)"
    by (simp add: shortest_digits_def e)
  then show ?thesis
    by (simp add: number_toString_def positive_toString_def decimal.simps digit_def)
qed

subsection \<open>Evaluating the schema on concrete files\<close>

lemma eq_char_of_iff: "c = char_of n \<longleftrightarrow> take_bit 8 n = of_char c"
  for n :: nat
  using char_of_eq_iff [of n c] by auto

lemmas eval_defs =
  validate_Some fileFormat_def fileSize_def isImageFormat_def isAllowedFormat_def
  fileExtension_def pop_def toLowerCase_def toLowerCase_char_def char_of_eq_iff eq_char_of_iff
  validImageFormats_def allowedFormats_def show_ext_def
  maxFileSize_def fileSizeMB_def maxFileSizeMB_def
  toFixed2_def Let_def floor_numeral_div_rat decimal.simps digit_def
  defaults_def photo_png_def a_jpg_def b_gif_def c_exe_def

subsection \<open>The handlers\<close>

text \<open>\<open>select\<close> in terms of the candidate of its event.\<close>

lemma select_candidate:
  "select p ev c =
     (case candidate ev of
        None \<Rightarrow> (c, [])
      | Some f \<Rightarrow>
          (case validate p (Some f) of
             Inr ok \<Rightarrow>
               (c\<lparr>state := \<lparr>image_st = Some f, touched = True, error = None\<rparr>\<rparr>,
                [EmitSelect f])
           | Inl e \<Rightarrow>
               (c\<lparr>state := (state c)\<lparr>error := Some (message e)\<rparr>\<rparr>,
                [EmitError (message e)])))"
  by (cases ev)
    (simp add: select_def candidate_def errors_def split: option.splits list.splits sum.splits)

lemma reset_state: "state (fst (reset c)) = empty_state" "snd (reset c) = [EmitReset]"
  by (simp_all add: reset_def empty_state_def Let_def split: option.splits prod.splits)

text \<open>\<open>reset\<close> revokes only the URL it has just created: every other registration of the
  store is as before.\<close>

lemma reset_keeps_blobs:
  assumes "k \<noteq> fresh (urls c)"
  shows "blobs (urls (fst (reset c))) k = blobs (urls c) k"
  using assms
  by (simp add: reset_def createObjectURL_def revokeObjectURL_def split: option.splits)

lemma run_snoc: "run p (as @ [a]) c = fst (handle p a (run p as c))"
  by (induction as arbitrary: c) simp_all

lemma attempts_Cons:
  "attempts (a # as) = (case attempt_of a of None \<Rightarrow> [] | Some f \<Rightarrow> [f]) @ attempts as"
  by (cases a) (simp_all add: attempt_of_def split: option.splits)

lemma attempts_append: "attempts (as @ bs) = attempts as @ attempts bs"
  by (induction as) (simp_all add: attempts_Cons)

lemma attempts_snoc:
  "attempts (as @ [a]) = attempts as @ (case attempt_of a of None \<Rightarrow> [] | Some f \<Rightarrow> [f])"
  by (simp add: attempts_append attempts_Cons)

text \<open>The Selection State after one action.\<close>

lemma state_handle:
  "state (fst (handle p a c)) =
     (case a of
        ResetClick \<Rightarrow> empty_state
      | Drag b \<Rightarrow> state c
      | _ \<Rightarrow>
        (case attempt_of a of
           None \<Rightarrow> state c
         | Some f \<Rightarrow>
             (case validate p (Some f) of
                Inr ok \<Rightarrow> \<lparr>image_st = Some f, touched = True, error = None\<rparr>
              | Inl e \<Rightarrow> (state c)\<lparr>error := Some (message e)\<rparr>)))"
  by (cases a)
    (simp_all add: handleChange_def handleDrop_def handleReset_def handleDrag_def
      select_candidate attempt_of_def reset_state split: option.splits sum.splits)

lemmas run_defs =
  handleChange_def handleDrop_def handleReset_def handleDrag_def select_candidate
  candidate_def mount_def empty_store_def empty_state_def
  last_attempt_failed_def some_attempt_succeeded_def rejected_def

section \<open>The claims\<close>

subsection \<open>The Selection State\<close>

text \<open>
  C1, as stated, fails: after a successful selection followed by a rejected one the
  component holds a file and an error message at once, because the rejecting branch of
  \<open>select\<close> only writes \<open>state.error\<close>.
\<close>

theorem selection_invariant_counterexample:
  "\<not> (image_st (state (run defaults
          [Change (Event (Some [photo_png]) None), Drop (Event None (Some (Some [c_exe])))]
          (mount empty_store))) \<noteq> None \<longrightarrow>
       touched (state (run defaults
          [Change (Event (Some [photo_png]) None), Drop (Event None (Some (Some [c_exe])))]
          (mount empty_store)))
       \<and> error (state (run defaults
          [Change (Event (Some [photo_png]) None), Drop (Event None (Some (Some [c_exe])))]
          (mount empty_store))) = None)"
  by (simp add: run_defs eval_defs)

text \<open>
  C1, amended. After every sequence of actions (file-input changes and drops with any event,
  reset clicks, drag hovers) on the freshly mounted component: the error message is non-null
  only when the most recent selection attempt failed; \<open>touched\<close> is true only after at
  least one successful selection; the current file is non-null only when \<open>touched\<close> is
  true.
\<close>

theorem selection_invariant:
  "(error (state (run p as (mount u))) \<noteq> None \<longrightarrow> last_attempt_failed p as)
   \<and> (touched (state (run p as (mount u))) \<longrightarrow> some_attempt_succeeded p as)
   \<and> (image_st (state (run p as (mount u))) \<noteq> None \<longrightarrow>
        touched (state (run p as (mount u))))"
proof (induction as rule: rev_induct)
  case Nil
  show ?case by (simp add: mount_def)
next
  case (snoc a as)
  let ?c = "run p as (mount u)"
  show ?case
  proof (cases "attempt_of a")
    case None
    then have att: "attempts (as @ [a]) = attempts as"
      by (simp add: attempts_snoc)
    have "state (fst (handle p a ?c)) = state ?c
        \<or> state (fst (handle p a ?c)) = empty_state"
      using None state_handle [of p a ?c] by (cases a) simp_all
    then show ?thesis
      using snoc
      by (auto simp: run_snoc last_attempt_failed_def some_attempt_succeeded_def att
          empty_state_def)
  next
    case (Some f)
    then have att: "attempts (as @ [a]) = attempts as @ [f]"
      by (simp add: attempts_snoc)
    have st: "state (fst (handle p a ?c)) =
        (case validate p (Some f) of
           Inr ok \<Rightarrow> \<lparr>image_st = Some f, touched = True, error = None\<rparr>
         | Inl e \<Rightarrow> (state ?c)\<lparr>error := Some (message e)\<rparr>)"
      using Some state_handle [of p a ?c] by (cases a) (simp_all add: attempt_of_def)
    show ?thesis
    proof (cases "validate p (Some f)")
      case (Inl e)
      then show ?thesis
        using snoc
        by (simp add: run_snoc st att last_attempt_failed_def some_attempt_succeeded_def
            rejected_def)
    next
      case (Inr ok)
      then show ?thesis
        by (simp add: run_snoc st att last_attempt_failed_def some_attempt_succeeded_def
            rejected_def)
    qed
  qed
qed

text \<open>Scenario A followed by Scenario D: all three premises hold at once.\<close>

theorem selection_invariant_witness:
  "error (state (run defaults
      [Change (Event (Some [photo_png]) None), Drop (Event None (Some (Some [c_exe])))]
      (mount empty_store))) \<noteq> None
   \<and> last_attempt_failed defaults
      [Change (Event (Some [photo_png]) None), Drop (Event None (Some (Some [c_exe])))]
   \<and> touched (state (run defaults
      [Change (Event (Some [photo_png]) None), Drop (Event None (Some (Some [c_exe])))]
      (mount empty_store)))
   \<and> some_attempt_succeeded defaults
      [Change (Event (Some [photo_png]) None), Drop (Event None (Some (Some [c_exe])))]
   \<and> image_st (state (run defaults
      [Change (Event (Some [photo_png]) None), Drop (Event None (Some (Some [c_exe])))]
      (mount empty_store))) \<noteq> None"
  using selection_invariant [of defaults
      "[Change (Event (Some [photo_png]) None), Drop (Event None (Some (Some [c_exe])))]"
      empty_store]
  by (simp add: run_defs eval_defs)

subsection \<open>Reset and the preview URL\<close>

text \<open>
  C2 asks that \<open>reset\<close> revoke the object URL that was created for the preview of the
  current file. The code at Scenario E: \<open>photo.png\<close> is selected, the template renders it
  under the object URL number 0, and \<open>reset\<close> is called. The state is emptied and one
  \<open>reset\<close> event is emitted, but URL 0 is still registered for the file: \<open>reset\<close>
  created URL number 1 and revoked that one.
\<close>

theorem reset_leaks_preview_url:
  "(let c1 = fst (select defaults (Event (Some [photo_png]) None) (mount empty_store));
        shown = fst (previewUrl defaults c1);
        c2 = snd (previewUrl defaults c1);
        c3 = fst (reset c2)
    in image_st (state c1) = Some photo_png
       \<and> shown = Blob 0
       \<and> blobs (urls c2) 0 = Some photo_png
       \<and> blobs (urls c3) 0 = Some photo_png
       \<and> state c3 = empty_state
       \<and> snd (reset c2) = [EmitReset])"
  by (simp add: select_candidate candidate_def eval_defs mount_def empty_store_def
      previewUrl_def createObjectURL_def revokeObjectURL_def reset_def empty_state_def)

text \<open>
  C9. \<open>reset\<close> is a total function of the component: in every state it leaves the empty
  Selection State and emits exactly one \<open>reset\<close> event; on the empty state it changes
  nothing at all; a second \<open>reset\<close> leaves the state of the first.
\<close>

theorem reset_to_empty:
  "state (fst (reset c)) = empty_state
   \<and> snd (reset c) = [EmitReset]
   \<and> reset (c\<lparr>state := empty_state\<rparr>) = (c\<lparr>state := empty_state\<rparr>, [EmitReset])
   \<and> state (fst (reset (fst (reset c)))) = state (fst (reset c))
   \<and> snd (reset (fst (reset c))) = [EmitReset]
   \<and> state (fst (handleReset c)) = empty_state
   \<and> snd (handleReset c) = [EmitReset]"
  by (simp add: reset_state handleReset_def) (simp add: reset_def empty_state_def)

subsection \<open>Selecting\<close>

text \<open>
  C4. When the event brings a file (the first of the picker's list, or of the dropped list)
  and validation of that file fails with the error \<open>e\<close>, \<open>select\<close> changes nothing but
  \<open>state.error\<close>, which becomes the message of \<open>e\<close>, and emits exactly one event, the
  \<open>error\<close> event with that message: the current file and \<open>touched\<close> are as before and no
  \<open>select\<close> event is emitted.
\<close>

theorem rejected_selection:
  assumes "ev = Event (Some (f # fs)) dt \<or> ev = Event None (Some (Some (f # fs)))"
    and "validate p (Some f) = Inl e"
  shows "select p ev c =
           (c\<lparr>state := (state c)\<lparr>error := Some (message e)\<rparr>\<rparr>, [EmitError (message e)])
       \<and> image_st (state (fst (select p ev c))) = image_st (state c)
       \<and> touched (state (fst (select p ev c))) = touched (state c)
       \<and> error (state (fst (select p ev c))) = Some (message e)
       \<and> snd (select p ev c) = [EmitError (message e)]"
proof -
  have "candidate ev = Some f"
    using assms(1) by (auto simp: candidate_def)
  then show ?thesis
    using assms(2) by (simp add: select_candidate)
qed

text \<open>\<open>c.exe\<close> dropped on a component that holds \<open>photo.png\<close>.\<close>

theorem rejected_selection_witness:
  "(Event None (Some (Some [c_exe])) = Event (Some (c_exe # [])) None
      \<or> Event None (Some (Some [c_exe])) = Event None (Some (Some (c_exe # []))))
   \<and> validate defaults (Some c_exe) =
       Inl (ValidationError
         ''Unsupported file format: .exe. Supported formats are: jpg, jpeg, png, webp, gif.'')
   \<and> select defaults (Event None (Some (Some [c_exe])))
        \<lparr>state = \<lparr>image_st = Some photo_png, touched = True, error = None\<rparr>,
         isDragging = False, urls = empty_store\<rparr> =
       (\<lparr>state = \<lparr>image_st = Some photo_png, touched = True, error = Some
           ''Unsupported file format: .exe. Supported formats are: jpg, jpeg, png, webp, gif.''\<rparr>,
         isDragging = False, urls = empty_store\<rparr>,
        [EmitError
           ''Unsupported file format: .exe. Supported formats are: jpg, jpeg, png, webp, gif.''])"
proof -
  have h1: "Event None (Some (Some [c_exe])) = Event (Some (c_exe # [])) None
      \<or> Event None (Some (Some [c_exe])) = Event None (Some (Some (c_exe # [])))"
    by simp
  have h2: "validate defaults (Some c_exe) =
       Inl (ValidationError
         ''Unsupported file format: .exe. Supported formats are: jpg, jpeg, png, webp, gif.'')"
    by (simp add: eval_defs)
  show ?thesis
    using rejected_selection [OF h1 h2, of
        "\<lparr>state = \<lparr>image_st = Some photo_png, touched = True, error = None\<rparr>,
          isDragging = False, urls = empty_store\<rparr>"] h1 h2
    by simp
qed

text \<open>
  C8. On an input event whose file list is empty, of the picker or of the drop,
  \<open>select\<close> returns the component as it was and emits nothing. So does \<open>handleChange\<close>;
  \<open>handleDrop\<close> leaves the Selection State as it was and emits nothing.
\<close>

theorem empty_event_noop:
  "select p (Event (Some []) dt) c = (c, [])
   \<and> select p (Event None (Some (Some []))) c = (c, [])
   \<and> handleChange p (Event (Some []) dt) c = (c, [])
   \<and> state (fst (handleDrop p (Event None (Some (Some []))) c)) = state c
   \<and> snd (handleDrop p (Event None (Some (Some []))) c) = []"
  by (simp add: select_candidate candidate_def handleChange_def handleDrop_def)

subsection \<open>The format rules\<close>

text \<open>
  C3 asks that membership of the file's extension in the caller's list be decided without
  regard to letter case. The code at the list \<open>[PNG]\<close> and the file \<open>a.png\<close>: the
  extension \<open>png\<close> equals the entry \<open>PNG\<close> up to letter case, and the policy rule
  rejects it. Only the file's extension is lower-cased; \<open>includes\<close> compares it with the
  entries as they are written.
\<close>

theorem policy_membership_case_sensitive:
  "toLowerCase ''png'' = toLowerCase ''PNG''
   \<and> fileExtension \<lparr>name = ''a.png'', fsize = 1\<rparr> = Some ''png''
   \<and> \<not> isAllowedFormat (defaults\<lparr>supportedFormats := Some [''PNG'']\<rparr>)
         \<lparr>name = ''a.png'', fsize = 1\<rparr>
   \<and> validate (defaults\<lparr>supportedFormats := Some [''PNG'']\<rparr>)
         (Some \<lparr>name = ''a.png'', fsize = 1\<rparr>) =
       Inl (ValidationError ''Unsupported file format: .png. Allowed formats are: PNG.'')"
  by (simp add: eval_defs)

text \<open>
  C5. A file whose derived extension (the lower-cased text after the last dot of its name;
  the whole lower-cased name when there is no dot) is not one of jpg, jpeg, png, webp, gif
  is rejected with the unsupported-format message that cites the built-in formats. This
  holds for every \<open>supportedFormats\<close>, every \<open>maxSize\<close> and every file size: the built-in
  rule comes before the policy rule and the size rule.
\<close>

theorem builtin_format_rejection:
  assumes "name v = a @ ''.'' @ b \<or> name v = b"
    and "CHR ''.'' \<notin> set b"
    and "toLowerCase b \<notin> set [''jpg'', ''jpeg'', ''png'', ''webp'', ''gif'']"
  shows "validate p (Some v) =
           Inl (ValidationError (''Unsupported file format: .'' @ toLowerCase b @
                ''. Supported formats are: jpg, jpeg, png, webp, gif.''))"
proof -
  have "fileExtension v = Some (toLowerCase b)"
    using assms(1,2) by (rule fileExtension_eq)
  moreover have "toLowerCase b \<notin> set validImageFormats"
    using assms(3) by (simp add: validImageFormats_def)
  ultimately show ?thesis
    by (rule validate_not_image)
qed

text \<open>Scenario D, made harder: \<open>c.exe\<close> is on the caller's list and is larger than the
  configured maximum, and still the built-in rule answers.\<close>

theorem builtin_format_rejection_witness:
  "(name c_exe = ''c'' @ ''.'' @ ''exe'' \<or> name c_exe = ''exe'')
   \<and> CHR ''.'' \<notin> set ''exe''
   \<and> toLowerCase ''exe'' \<notin> set [''jpg'', ''jpeg'', ''png'', ''webp'', ''gif'']
   \<and> fileSize
        (defaults\<lparr>supportedFormats := Some [''exe''], maxSize := Some 1\<rparr>) (Some c_exe) \<noteq> None
   \<and> validate
        (defaults\<lparr>supportedFormats := Some [''exe''], maxSize := Some 1\<rparr>) (Some c_exe) =
       Inl (ValidationError
         ''Unsupported file format: .exe. Supported formats are: jpg, jpeg, png, webp, gif.'')"
proof -
  have h1: "name c_exe = ''c'' @ ''.'' @ ''exe'' \<or> name c_exe = ''exe''"
    by (simp add: c_exe_def)
  have h2: "CHR ''.'' \<notin> set ''exe''" by simp
  have h3: "toLowerCase ''exe'' \<notin> set [''jpg'', ''jpeg'', ''png'', ''webp'', ''gif'']"
    by (simp add: toLowerCase_def toLowerCase_char_def)
  have low: "toLowerCase ''exe'' = ''exe''"
    by (simp add: toLowerCase_def toLowerCase_char_def)
  have sz: "fileSize
      (defaults\<lparr>supportedFormats := Some [''exe''], maxSize := Some 1\<rparr>) (Some c_exe) \<noteq> None"
    by (simp add: fileSize_def maxFileSize_def defaults_def c_exe_def)
  show ?thesis
    using builtin_format_rejection [OF h1 h2 h3, of "defaults\<lparr>supportedFormats := Some [''exe''], maxSize := Some 1\<rparr>"] h1 h2 h3 sz
    by (simp add: low)
qed

text \<open>
  C6. A file whose derived extension is one of the built-in formats but is not on the
  caller's list is rejected with the unsupported-format message that cites the caller's
  list; without a caller's list the policy rule passes for every built-in format.
\<close>

theorem policy_format_rejection:
  assumes "name v = a @ ''.'' @ b \<or> name v = b"
    and "CHR ''.'' \<notin> set b"
    and "toLowerCase b \<in> set [''jpg'', ''jpeg'', ''png'', ''webp'', ''gif'']"
  shows "(supportedFormats p = Some l \<and> toLowerCase b \<notin> set l \<longrightarrow>
            validate p (Some v) =
              Inl (ValidationError (''Unsupported file format: .'' @ toLowerCase b @
                   ''. Allowed formats are: '' @ join '', '' l @ ''.'')))
       \<and> (supportedFormats p = None \<longrightarrow> isAllowedFormat p v \<and> fileFormat p (Some v) = None)"
proof -
  have ext: "fileExtension v = Some (toLowerCase b)"
    using assms(1,2) by (rule fileExtension_eq)
  have img: "isImageFormat v"
    using assms(3) by (simp add: isImageFormat_def ext validImageFormats_def)
  have ne: "toLowerCase b \<noteq> []"
    using assms(3) by auto
  have 1: "validate p (Some v) =
       Inl (ValidationError (''Unsupported file format: .'' @ toLowerCase b @
             ''. Allowed formats are: '' @ join '', '' l @ ''.''))"
    if "supportedFormats p = Some l" "toLowerCase b \<notin> set l"
  proof -
    have "\<not> isAllowedFormat p v"
      using that ne by (simp add: isAllowedFormat_def ext allowedFormats_def)
    then show ?thesis
      using img that
      by (simp add: validate_Some fileFormat_def ext show_ext_def allowedFormats_def)
  qed
  have 2: "isAllowedFormat p v \<and> fileFormat p (Some v) = None"
    if "supportedFormats p = None"
  proof -
    have "isAllowedFormat p v"
      using that assms(3)
      by (simp add: isAllowedFormat_def ext allowedFormats_def validImageFormats_def)
    then show ?thesis
      using img by (simp add: fileFormat_def)
  qed
  from 1 2 show ?thesis by blast
qed

text \<open>Scenario B (\<open>a.jpg\<close> against the list \<open>[png]\<close>), and \<open>a.jpg\<close> without a list.\<close>

theorem policy_format_rejection_witness:
  "(name a_jpg = ''a'' @ ''.'' @ ''jpg'' \<or> name a_jpg = ''jpg'')
   \<and> CHR ''.'' \<notin> set ''jpg''
   \<and> toLowerCase ''jpg'' \<in> set [''jpg'', ''jpeg'', ''png'', ''webp'', ''gif'']
   \<and> supportedFormats (defaults\<lparr>supportedFormats := Some [''png'']\<rparr>) = Some [''png'']
   \<and> toLowerCase ''jpg'' \<notin> set [''png'']
   \<and> validate (defaults\<lparr>supportedFormats := Some [''png'']\<rparr>) (Some a_jpg) =
       Inl (ValidationError ''Unsupported file format: .jpg. Allowed formats are: png.'')
   \<and> supportedFormats defaults = None
   \<and> isAllowedFormat defaults a_jpg
   \<and> fileFormat defaults (Some a_jpg) = None"
proof -
  have h1: "name a_jpg = ''a'' @ ''.'' @ ''jpg'' \<or> name a_jpg = ''jpg''"
    by (simp add: a_jpg_def)
  have h2: "CHR ''.'' \<notin> set ''jpg''" by simp
  have low: "toLowerCase ''jpg'' = ''jpg''"
    by (simp add: toLowerCase_def toLowerCase_char_def)
  have h3: "toLowerCase ''jpg'' \<in> set [''jpg'', ''jpeg'', ''png'', ''webp'', ''gif'']"
    by (simp add: low)
  have h4: "supportedFormats (defaults\<lparr>supportedFormats := Some [''png'']\<rparr>) = Some [''png'']"
    by simp
  have h5: "toLowerCase ''jpg'' \<notin> set [''png'']"
    by (simp add: low)
  have h6: "supportedFormats defaults = None"
    by (simp add: defaults_def)
  show ?thesis
    using policy_format_rejection [OF h1 h2 h3, of
        "defaults\<lparr>supportedFormats := Some [''png'']\<rparr>" "[''png'']"]
      policy_format_rejection [OF h1 h2 h3, of defaults "[]"]
      h1 h2 h3 h4 h5 h6
    by (simp add: low)
qed

text \<open>
  C10. A name without a dot is its own extension. So a file named \<open>png\<close> is accepted
  when no list is supplied and its size is within the limit, whatever that size is, and a
  file named \<open>document\<close> is rejected as an unsupported format, whatever the props.
\<close>

theorem dotless_name_is_extension:
  "(CHR ''.'' \<notin> set (name v) \<longrightarrow> fileExtension v = Some (toLowerCase (name v)))
   \<and> (supportedFormats p = None \<and> int sz \<le> maxFileSize p \<longrightarrow>
        validate p (Some \<lparr>name = ''png'', fsize = sz\<rparr>) = Inr ())
   \<and> validate p (Some \<lparr>name = ''document'', fsize = sz\<rparr>) =
       Inl (ValidationError
         ''Unsupported file format: .document. Supported formats are: jpg, jpeg, png, webp, gif.'')"
proof -
  have 1: "fileExtension v = Some (toLowerCase (name v))" if "CHR ''.'' \<notin> set (name v)"
    using that fileExtension_eq [of v "[]" "name v"] by simp
  have e: "fileExtension \<lparr>name = ''png'', fsize = sz\<rparr> = Some ''png''"
    by (simp add: fileExtension_def pop_def toLowerCase_def toLowerCase_char_def)
  have 2: "validate p (Some \<lparr>name = ''png'', fsize = sz\<rparr>) = Inr ()"
    if "supportedFormats p = None" "int sz \<le> maxFileSize p"
    using that
    by (simp add: validate_Some fileFormat_def fileSize_def isImageFormat_def
        isAllowedFormat_def allowedFormats_def validImageFormats_def e)
  have d: "fileExtension \<lparr>name = ''document'', fsize = sz\<rparr> = Some ''document''"
    by (simp add: fileExtension_def pop_def toLowerCase_def toLowerCase_char_def)
  have 3: "validate p (Some \<lparr>name = ''document'', fsize = sz\<rparr>) =
       Inl (ValidationError
         ''Unsupported file format: .document. Supported formats are: jpg, jpeg, png, webp, gif.'')"
    using validate_not_image [OF d, of p]
    by (simp add: validImageFormats_def)
  from 1 2 3 show ?thesis by blast
qed

text \<open>A file named \<open>PNG\<close> of exactly 5 MiB under the defaults.\<close>

theorem dotless_name_is_extension_witness:
  "CHR ''.'' \<notin> set (name \<lparr>name = ''PNG'', fsize = 7\<rparr>)
   \<and> fileExtension \<lparr>name = ''PNG'', fsize = 7\<rparr> = Some ''png''
   \<and> supportedFormats defaults = None
   \<and> int (5 * 1024 * 1024) \<le> maxFileSize defaults
   \<and> validate defaults (Some \<lparr>name = ''png'', fsize = 5 * 1024 * 1024\<rparr>) = Inr ()"
proof -
  have h1: "CHR ''.'' \<notin> set (name \<lparr>name = ''PNG'', fsize = 7\<rparr>)" by simp
  have h2: "supportedFormats defaults = None" by (simp add: defaults_def)
  have h3: "int (5 * 1024 * 1024) \<le> maxFileSize defaults"
    by (simp add: maxFileSize_def defaults_def)
  have low: "toLowerCase ''PNG'' = ''png''"
    by (simp add: toLowerCase_def toLowerCase_char_def char_of_eq_iff)
  show ?thesis
    using dotless_name_is_extension [of "\<lparr>name = ''PNG'', fsize = 7\<rparr>" defaults
        "5 * 1024 * 1024"] h1 h2 h3
    by (simp add: low)
qed

subsection \<open>The size rule\<close>

text \<open>
  C7, as stated, fails when the configured maximum is 0: \<open>props.maxSize || 5 * 1024 * 1024\<close>
  takes 0 for "not configured", so a file of one byte, which exceeds the configured
  maximum, is accepted.
\<close>

theorem size_rule_counterexample:
  "maxSize (defaults\<lparr>maxSize := Some 0\<rparr>) = Some 0
   \<and> fileFormat (defaults\<lparr>maxSize := Some 0\<rparr>) (Some \<lparr>name = ''a.png'', fsize = 1\<rparr>) = None
   \<and> int (fsize \<lparr>name = ''a.png'', fsize = 1\<rparr>) > 0
   \<and> validate (defaults\<lparr>maxSize := Some 0\<rparr>) (Some \<lparr>name = ''a.png'', fsize = 1\<rparr>) =
       Inr ()"
  by (simp add: eval_defs)

text \<open>
  C7, amended. The file's size and the configured maximum are integers that a JavaScript
  number holds exactly (below \<open>2^53\<close> in magnitude). The effective maximum is the
  configured \<open>maxSize\<close> when one is configured and is not 0, and 5 * 1024 * 1024 bytes
  otherwise. A file that passes the format rules is rejected if and only if its size in
  bytes strictly exceeds the effective maximum. The message then reports the file's size in
  MiB with two decimals, rounded to the nearest hundredth (\<open>n\<close> below is the size in
  hundredths of a MiB), and the effective maximum in MiB as \<open>toString\<close> prints the
  quotient itself, which is not rounded: the digits printed read back as exactly that
  quotient.
\<close>

theorem size_rule:
  assumes "fileFormat p (Some v) = None"
    and "fsize v < 2 ^ 53"
    and "case maxSize p of None \<Rightarrow> True | Some m \<Rightarrow> \<bar>m\<bar> < 2 ^ 53"
  shows "(isl (validate p (Some v)) \<longleftrightarrow>
            int (fsize v) >
              (case maxSize p of None \<Rightarrow> 5 * 1024 * 1024
               | Some m \<Rightarrow> if m = 0 then 5 * 1024 * 1024 else m))
       \<and> (isl (validate p (Some v)) \<longrightarrow>
            validate p (Some v) =
              Inl (ValidationError
                (''File size is too large: '' @
                 (let n = (200 * fsize v + 1048576) div 2097152
                  in decimal (n div 100) @ ''.'' @ [digit (n mod 100 div 10), digit (n mod 10)]) @
                 ''MB. Maximum allowed size is '' @
                 number_toString
                   (of_int (case maxSize p of None \<Rightarrow> 5 * 1024 * 1024
                            | Some m \<Rightarrow> if m = 0 then 5 * 1024 * 1024 else m) / (1024 * 1024)) @
                 ''MB.'')))
       \<and> reads_back
            (of_int (case maxSize p of None \<Rightarrow> 5 * 1024 * 1024
                     | Some m \<Rightarrow> if m = 0 then 5 * 1024 * 1024 else m) / (1024 * 1024))"
proof -
  have m: "maxFileSize p =
      (case maxSize p of None \<Rightarrow> 5 * 1024 * 1024
       | Some m \<Rightarrow> if m = 0 then 5 * 1024 * 1024 else m)"
    by (simp add: maxFileSize_def split: option.splits)
  have mb: "maxFileSizeMB p = of_int (maxFileSize p) / (1024 * 1024)"
    by (simp add: maxFileSizeMB_def)
  show ?thesis
    using assms(1) unfolding m [symmetric]
    by (simp add: validate_Some fileSize_def fileSizeMB_eq [OF assms(2)] mb reads_back_all)
qed

text \<open>Scenario C (\<open>b.gif\<close> of 6 MiB under the defaults), a file of exactly 5 MiB, and
  \<open>photo.png\<close> of 2 MiB against a maximum of 1179648 bytes, which is 1.125 MiB.\<close>

theorem size_rule_witness:
  "fileFormat defaults (Some b_gif) = None
   \<and> fsize b_gif < 2 ^ 53
   \<and> isl (validate defaults (Some b_gif))
   \<and> validate defaults (Some b_gif) =
       Inl (ValidationError ''File size is too large: 6.00MB. Maximum allowed size is 5MB.'')
   \<and> fileFormat defaults (Some \<lparr>name = ''b.gif'', fsize = 5 * 1024 * 1024\<rparr>) = None
   \<and> \<not> isl (validate defaults (Some \<lparr>name = ''b.gif'', fsize = 5 * 1024 * 1024\<rparr>))
   \<and> fileFormat (defaults\<lparr>maxSize := Some 1179648\<rparr>) (Some photo_png) = None
   \<and> validate (defaults\<lparr>maxSize := Some 1179648\<rparr>) (Some photo_png) =
       Inl (ValidationError
         ''File size is too large: 2.00MB. Maximum allowed size is 1.125MB.'')
   \<and> reads_back (9 / 8)"
proof -
  have h1: "fileFormat defaults (Some b_gif) = None"
    by (simp add: eval_defs)
  have s1: "fsize b_gif < 2 ^ 53"
    by (simp add: b_gif_def)
  have m1: "case maxSize defaults of None \<Rightarrow> True | Some m \<Rightarrow> \<bar>m\<bar> < 2 ^ 53"
    by (simp add: defaults_def)
  have h2: "fileFormat defaults (Some \<lparr>name = ''b.gif'', fsize = 5 * 1024 * 1024\<rparr>) = None"
    by (simp add: eval_defs)
  have s2: "fsize \<lparr>name = ''b.gif'', fsize = 5 * 1024 * 1024\<rparr> < 2 ^ 53"
    by simp
  have h3: "fileFormat (defaults\<lparr>maxSize := Some 1179648\<rparr>) (Some photo_png) = None"
    by (simp add: eval_defs)
  have s3: "fsize photo_png < 2 ^ 53"
    by (simp add: photo_png_def)
  have m3: "case maxSize (defaults\<lparr>maxSize := Some 1179648\<rparr>) of
      None \<Rightarrow> True | Some m \<Rightarrow> \<bar>m\<bar> < 2 ^ 53"
    by simp
  have a: "validate defaults (Some b_gif) =
       Inl (ValidationError ''File size is too large: 6.00MB. Maximum allowed size is 5MB.'')"
    using size_rule [OF h1 s1 m1]
    by (simp add: defaults_def b_gif_def number_toString_5 decimal.simps digit_def)
  have b: "\<not> isl (validate defaults (Some \<lparr>name = ''b.gif'', fsize = 5 * 1024 * 1024\<rparr>))"
    using size_rule [OF h2 s2 m1]
    by (simp add: defaults_def)
  have c: "validate (defaults\<lparr>maxSize := Some 1179648\<rparr>) (Some photo_png) =
       Inl (ValidationError
         ''File size is too large: 2.00MB. Maximum allowed size is 1.125MB.'')"
    using size_rule [OF h3 s3 m3]
    by (simp add: photo_png_def number_toString_9_8 decimal.simps digit_def)
  have d: "reads_back (9 / 8)"
    using size_rule [OF h3 s3 m3] by simp
  from a b c d h1 h2 h3 s1 show ?thesis
    by simp
qed

end
